theory Spec2Isabelle
  imports Complex_Main
begin

section \<open>The drawing surface\<close>

text \<open>
  \<^verbatim>\<open>App.js\<close> paints on one \<^verbatim>\<open><canvas>\<close> element through its 2D rendering context.
  The element and its context are modelled as one record. A bitmap is a list of rows of
  pixels; a pixel holds premultiplied red, green, blue and alpha as exact fractions, the
  form in which the canvas composites.
\<close>

datatype pixel = RGBA rat rat rat rat

definition transparent :: pixel where
  "transparent = RGBA 0 0 0 0"

type_synonym bitmap = "pixel list list"

text \<open>The current path of the context, kept as the calls that built it.\<close>

datatype pathcmd = MoveTo int int | LineTo int int | ClosePath

record canvas2d =
  pixels :: bitmap
  lineCap :: string
  lineJoin :: string
  globalAlpha :: rat
  strokeStyle :: string
  ctxLineWidth :: rat
  path :: "pathcmd list"

text \<open>
  What the browser supplies and the source only calls: \<^verbatim>\<open>canvas.toDataURL()\<close>, the loading
  of a data URL by an \<^verbatim>\<open>Image\<close>, and the rasteriser behind \<^verbatim>\<open>ctx.stroke()\<close>, which gives
  the bitmap after stroking the current path with the current settings. They are parameters
  of the model; \<open>'u\<close> is the type of data URLs.

  The result of \<open>decodeImage\<close> is \<open>None\<close> when the load fails: the image then fires
  \<^verbatim>\<open>error\<close>, for which \<^verbatim>\<open>restoreState\<close> registers no handler, and \<^verbatim>\<open>onload\<close> never runs. It
  is \<open>Some img\<close> when the image fires \<^verbatim>\<open>load\<close>, with \<open>img\<close> what \<^verbatim>\<open>drawImage\<close> can draw
  of it. An image that has loaded but of which nothing can be decoded, or that has no size,
  is the empty bitmap: \<^verbatim>\<open>drawImage\<close> returns without drawing.
\<close>

record 'u platform =
  toDataURL :: "bitmap \<Rightarrow> 'u"
  decodeImage :: "'u \<Rightarrow> bitmap option"
  strokePath :: "canvas2d \<Rightarrow> bitmap"

text \<open>
  Source-over compositing of a source pixel onto a destination pixel under the context's
  global alpha, on premultiplied values: \<open>src * ga + dst * (1 - src.a * ga)\<close>.
\<close>

fun sourceOver :: "rat \<Rightarrow> pixel \<Rightarrow> pixel \<Rightarrow> pixel" where
  "sourceOver ga (RGBA sr sg sb sa) (RGBA dr dg db da) =
     RGBA (sr * ga + dr * (1 - sa * ga)) (sg * ga + dg * (1 - sa * ga))
          (sb * ga + db * (1 - sa * ga)) (sa * ga + da * (1 - sa * ga))"

text \<open>
  \<open>overlay f src dst\<close> combines \<open>src\<close> into \<open>dst\<close> position by position from the
  origin; positions of \<open>dst\<close> that \<open>src\<close> does not reach stay as they are, and the part
  of \<open>src\<close> beyond \<open>dst\<close> is clipped.
\<close>

fun overlay :: "('a \<Rightarrow> 'b \<Rightarrow> 'b) \<Rightarrow> 'a list \<Rightarrow> 'b list \<Rightarrow> 'b list" where
  "overlay f ss [] = []"
| "overlay f [] (d # ds) = d # ds"
| "overlay f (s # ss) (d # ds) = f s d # overlay f ss ds"

text \<open>\<^verbatim>\<open>ctx.clearRect(0, 0, canvas.width, canvas.height)\<close>: every pixel becomes transparent black.\<close>

definition clearRect :: "canvas2d \<Rightarrow> canvas2d" where
  "clearRect c = c\<lparr>pixels := map (map (\<lambda>p. transparent)) (pixels c)\<rparr>"

text \<open>\<^verbatim>\<open>ctx.drawImage(img, 0, 0)\<close>: the image is composited at the origin under the global alpha.\<close>

definition drawImage :: "bitmap \<Rightarrow> canvas2d \<Rightarrow> canvas2d" where
  "drawImage img c = c\<lparr>pixels := overlay (overlay (sourceOver (globalAlpha c))) img (pixels c)\<rparr>"

text \<open>\<^verbatim>\<open>ctx.globalAlpha = v\<close>: the context ignores a value outside 0..1.\<close>

definition set_globalAlpha :: "rat \<Rightarrow> canvas2d \<Rightarrow> canvas2d" where
  "set_globalAlpha v c = (if 0 \<le> v \<and> v \<le> 1 then c\<lparr>globalAlpha := v\<rparr> else c)"

text \<open>A new canvas of the given size: transparent, with the context's default settings.\<close>

definition newCanvas :: "nat \<Rightarrow> nat \<Rightarrow> canvas2d" where
  "newCanvas w h =
     \<lparr>pixels = replicate h (replicate w transparent), lineCap = ''butt'', lineJoin = ''miter'',
      globalAlpha = 1, strokeStyle = ''#000000'', ctxLineWidth = 1, path = []\<rparr>"

section \<open>The component state\<close>

text \<open>
  The state of \<^verbatim>\<open>App\<close>: the canvas behind \<^verbatim>\<open>canvasRef\<close> and \<^verbatim>\<open>ctxRef\<close>, the six
  \<^verbatim>\<open>useState\<close> cells, and the images created by \<^verbatim>\<open>restoreState\<close> whose load has not
  finished yet, oldest first. Every handler runs to completion on the state of the latest
  render, so a handler is a function from state to state.
\<close>

record 'u app =
  canvas :: canvas2d
  isDrawing :: bool
  lineWidth :: rat
  lineColor :: string
  lineOpacity :: rat
  undoStack :: "'u list"
  redoStack :: "'u list"
  loading :: "'u list"

definition initial :: "nat \<Rightarrow> nat \<Rightarrow> 'u app" where
  "initial w h =
     \<lparr>canvas = newCanvas w h, isDrawing = False, lineWidth = 5, lineColor = ''black'',
      lineOpacity = 1 / 10, undoStack = [], redoStack = [], loading = []\<rparr>"

definition saveState :: "'u platform \<Rightarrow> 'u app \<Rightarrow> 'u app" where
  "saveState P s =
     (let dataUrl = toDataURL P (pixels (canvas s))
      in s\<lparr>undoStack := undoStack s @ [dataUrl]\<rparr>)"

text \<open>The body of the \<^verbatim>\<open>useEffect\<close>, run after the first render and after every render in
  which \<^verbatim>\<open>lineColor\<close>, \<^verbatim>\<open>lineOpacity\<close> or \<^verbatim>\<open>lineWidth\<close> has changed.\<close>

definition useEffect :: "'u platform \<Rightarrow> 'u app \<Rightarrow> 'u app" where
  "useEffect P s =
     (let c1 = (canvas s)\<lparr>lineCap := ''round''\<rparr>;
          c2 = c1\<lparr>lineJoin := ''round''\<rparr>;
          c3 = set_globalAlpha (lineOpacity s) c2;
          c4 = c3\<lparr>strokeStyle := lineColor s\<rparr>;
          c5 = c4\<lparr>ctxLineWidth := lineWidth s\<rparr>
      in saveState P (s\<lparr>canvas := c5\<rparr>))"

text \<open>
  \<^verbatim>\<open>restoreState\<close> itself only creates the image and sets its source; the canvas is touched
  by the \<^verbatim>\<open>onload\<close> callback, later, if the image loads.
\<close>

definition restoreState :: "'u \<Rightarrow> 'u app \<Rightarrow> 'u app" where
  "restoreState dataUrl s = s\<lparr>loading := loading s @ [dataUrl]\<rparr>"

definition onload :: "bitmap \<Rightarrow> canvas2d \<Rightarrow> canvas2d" where
  "onload img c =
     (let c1 = clearRect c;
          currentAlpha = globalAlpha c1;
          c2 = set_globalAlpha 1 c1;
          c3 = drawImage img c2
      in set_globalAlpha currentAlpha c3)"

text \<open>
  The load of the \<open>k\<close>-th pending image ends: with \<^verbatim>\<open>onload\<close> if the image fires
  \<^verbatim>\<open>load\<close>, with an error event that nothing listens to otherwise.
\<close>

definition imageSettled :: "'u platform \<Rightarrow> nat \<Rightarrow> 'u app \<Rightarrow> 'u app" where
  "imageSettled P k s =
     (if k < length (loading s) then
        (let dataUrl = loading s ! k;
             s1 = s\<lparr>loading := take k (loading s) @ drop (Suc k) (loading s)\<rparr>
         in case decodeImage P dataUrl of
              None \<Rightarrow> s1
            | Some img \<Rightarrow> s1\<lparr>canvas := onload img (canvas s1)\<rparr>)
      else s)"

definition startDrawing :: "int \<Rightarrow> int \<Rightarrow> 'u app \<Rightarrow> 'u app" where
  "startDrawing x y s = s\<lparr>canvas := (canvas s)\<lparr>path := [MoveTo x y]\<rparr>, isDrawing := True\<rparr>"

definition endDrawing :: "'u platform \<Rightarrow> 'u app \<Rightarrow> 'u app" where
  "endDrawing P s =
     (if isDrawing s then
        (let s1 = s\<lparr>canvas := (canvas s)\<lparr>path := path (canvas s) @ [ClosePath]\<rparr>\<rparr>;
             s2 = s1\<lparr>isDrawing := False\<rparr>;
             s3 = saveState P s2
         in s3\<lparr>redoStack := []\<rparr>)
      else s)"

definition draw :: "'u platform \<Rightarrow> int \<Rightarrow> int \<Rightarrow> 'u app \<Rightarrow> 'u app" where
  "draw P x y s =
     (if \<not> isDrawing s then s
      else (let c1 = (canvas s)\<lparr>path := path (canvas s) @ [LineTo x y]\<rparr>
            in s\<lparr>canvas := c1\<lparr>pixels := strokePath P c1\<rparr>\<rparr>))"

definition handleUndo :: "'u app \<Rightarrow> 'u app" where
  "handleUndo s =
     (if length (undoStack s) > 1 then
        (let newUndoStack = butlast (undoStack s);
             lastState = last (undoStack s);
             s1 = s\<lparr>redoStack := lastState # redoStack s\<rparr>;
             s2 = s1\<lparr>undoStack := newUndoStack\<rparr>
         in restoreState (last newUndoStack) s2)
      else s)"

definition handleRedo :: "'u app \<Rightarrow> 'u app" where
  "handleRedo s =
     (case redoStack s of
        [] \<Rightarrow> s
      | nextState # newRedoStack \<Rightarrow>
          (let s1 = s\<lparr>redoStack := newRedoStack\<rparr>;
               s2 = s1\<lparr>undoStack := undoStack s1 @ [nextState]\<rparr>
           in restoreState nextState s2))"

text \<open>
  The brush setters handed to the settings form, which calls them with a value that passed
  its validation. React re-renders, and so re-runs the effect, only when the value differs
  from the one held.
\<close>

definition setLineColor :: "'u platform \<Rightarrow> string \<Rightarrow> 'u app \<Rightarrow> 'u app" where
  "setLineColor P v s = (if v = lineColor s then s else useEffect P (s\<lparr>lineColor := v\<rparr>))"

definition setLineWidth :: "'u platform \<Rightarrow> rat \<Rightarrow> 'u app \<Rightarrow> 'u app" where
  "setLineWidth P v s = (if v = lineWidth s then s else useEffect P (s\<lparr>lineWidth := v\<rparr>))"

definition setLineOpacity :: "'u platform \<Rightarrow> rat \<Rightarrow> 'u app \<Rightarrow> 'u app" where
  "setLineOpacity P v s = (if v = lineOpacity s then s else useEffect P (s\<lparr>lineOpacity := v\<rparr>))"

section \<open>Sessions\<close>

datatype event =
    MouseDown int int
  | MouseMove int int
  | MouseUp
  | ClickUndo
  | ClickRedo
  | ChangeColor string
  | ChangeWidth rat
  | ChangeOpacity rat
  | ImageSettled nat

fun step :: "'u platform \<Rightarrow> 'u app \<Rightarrow> event \<Rightarrow> 'u app" where
  "step P s (MouseDown x y) = startDrawing x y s"
| "step P s (MouseMove x y) = draw P x y s"
| "step P s MouseUp = endDrawing P s"
| "step P s ClickUndo = handleUndo s"
| "step P s ClickRedo = handleRedo s"
| "step P s (ChangeColor v) = setLineColor P v s"
| "step P s (ChangeWidth v) = setLineWidth P v s"
| "step P s (ChangeOpacity v) = setLineOpacity P v s"
| "step P s (ImageSettled k) = imageSettled P k s"

definition run :: "'u platform \<Rightarrow> 'u app \<Rightarrow> event list \<Rightarrow> 'u app" where
  "run P s es = foldl (step P) s es"

text \<open>The session after mounting: the first render followed by the first run of the effect.\<close>

definition mounted :: "'u platform \<Rightarrow> nat \<Rightarrow> nat \<Rightarrow> 'u app" where
  "mounted P w h = useEffect P (initial w h)"

text \<open>One completed stroke: press at a point, drag through some points, release.\<close>

fun strokeEvents :: "(int \<times> int) \<times> (int \<times> int) list \<Rightarrow> event list" where
  "strokeEvents ((x, y), ms) = MouseDown x y # map (\<lambda>(mx, my). MouseMove mx my) ms @ [MouseUp]"

section \<open>A small platform for evaluating the model\<close>

text \<open>
  To run the model on concrete sessions the platform parameters need values. Here a data URL
  is an encoded bitmap, which loads as that bitmap, or a corrupt source, whose load fails,
  or a source that loads but of which nothing can be drawn; and the rasteriser paints one
  opaque black pixel, under the global alpha, at the end point of the last \<^verbatim>\<open>lineTo\<close> of
  the path. Only witnesses and counterexamples use
  this instance; every general theorem holds for all platforms.
\<close>

datatype demoUrl = Encoded bitmap | Corrupt | Undrawable

fun lastLineTo :: "pathcmd list \<Rightarrow> (int \<times> int) option" where
  "lastLineTo [] = None"
| "lastLineTo (LineTo x y # cs) = (case lastLineTo cs of None \<Rightarrow> Some (x, y) | Some p \<Rightarrow> Some p)"
| "lastLineTo (c # cs) = lastLineTo cs"

definition dotStroke :: "canvas2d \<Rightarrow> bitmap" where
  "dotStroke c =
     (case lastLineTo (path c) of
        None \<Rightarrow> pixels c
      | Some (x, y) \<Rightarrow>
          (if 0 \<le> x \<and> 0 \<le> y \<and> nat y < length (pixels c) \<and> nat x < length (pixels c ! nat y)
           then (pixels c)[nat y := (pixels c ! nat y)[nat x :=
                   sourceOver (globalAlpha c) (RGBA 0 0 0 1) (pixels c ! nat y ! nat x)]]
           else pixels c))"

definition demo :: "demoUrl platform" where
  "demo = \<lparr>toDataURL = Encoded,
           decodeImage = (\<lambda>u. case u of Encoded b \<Rightarrow> Some b | Corrupt \<Rightarrow> None
                                        | Undrawable \<Rightarrow> Some []),
           strokePath = dotStroke\<rparr>"

text \<open>
  Concrete sessions on a canvas of two by two pixels: a first stroke, completed; a second
  stroke pressed and dragged but not released on the canvas; the first stroke undone,
  with the restore finished; and undo and redo clicked after the first stroke with neither
  restore finished yet.
\<close>

definition strokeA :: "event list" where
  "strokeA = strokeEvents ((0, 0), [(1, 0)])"

definition strokeB :: "event list" where
  "strokeB = strokeEvents ((0, 1), [(1, 1)])"

definition afterStrokeA :: "demoUrl app" where
  "afterStrokeA = run demo (mounted demo 2 2) strokeA"

definition unfinishedStroke :: "demoUrl app" where
  "unfinishedStroke = run demo afterStrokeA [MouseDown 0 1, MouseMove 1 1]"

definition afterUndo :: "demoUrl app" where
  "afterUndo = run demo afterStrokeA [ClickUndo, ImageSettled 0]"

definition restoresPending :: "demoUrl app" where
  "restoresPending = run demo afterStrokeA [ClickUndo, ClickRedo]"

section \<open>Compositing and the restore callback\<close>

lemma sourceOver_full: "sourceOver 1 s transparent = s"
  by (cases s) (simp add: transparent_def)

lemma length_overlay: "length (overlay f ss ds) = length ds"
  by (induction f ss ds rule: overlay.induct) auto

lemma overlay_cong_on:
  "(\<And>s d. s \<in> set ss \<Longrightarrow> d \<in> set ds \<Longrightarrow> f s d = g s d) \<Longrightarrow> overlay f ss ds = overlay g ss ds"
proof (induction f ss ds rule: overlay.induct)
  case (3 f s ss d ds)
  then show ?case by simp
qed auto

lemma overlay_copy_same_length: "length ss = length ds \<Longrightarrow> overlay (\<lambda>s d. s) ss ds = ss"
proof (induction ss arbitrary: ds)
  case Nil
  then show ?case by simp
next
  case (Cons s ss)
  then obtain d ds' where "ds = d # ds'" by (cases ds) auto
  with Cons show ?case by simp
qed

lemma overlay_row_full:
  "set ds \<subseteq> {transparent} \<Longrightarrow> overlay (sourceOver 1) ss ds = overlay (\<lambda>s d. s) ss ds"
  by (rule overlay_cong_on) (auto simp: sourceOver_full)

lemma overlay_rows_full:
  "overlay (overlay (sourceOver 1)) img (map (map (\<lambda>p. transparent)) b) =
   overlay (overlay (\<lambda>s d. s)) img (map (map (\<lambda>p. transparent)) b)"
  by (rule overlay_cong_on) (auto intro!: overlay_row_full)

lemma overlay_rows_copy_same_shape:
  "map length img = map length b \<Longrightarrow> overlay (overlay (\<lambda>s d. s)) img b = img"
proof (induction img arbitrary: b)
  case Nil
  then show ?case by simp
next
  case (Cons r img)
  then obtain d b' where b: "b = d # b'" by (cases b) auto
  with Cons.prems have "length r = length d" "map length img = map length b'" by auto
  with Cons.IH b show ?case by (simp add: overlay_copy_same_length)
qed

lemma map_length_overlay_rows: "map length (overlay (overlay f) img b) = map length b"
  by (induction "overlay f" img b rule: overlay.induct) (auto simp: length_overlay)

lemma pixels_onload:
  "pixels (onload img c) = overlay (overlay (\<lambda>s d. s)) img (map (map (\<lambda>p. transparent)) (pixels c))"
  by (simp add: onload_def clearRect_def set_globalAlpha_def drawImage_def overlay_rows_full Let_def)

lemma pixels_onload_same_shape:
  "map length img = map length (pixels c) \<Longrightarrow> pixels (onload img c) = img"
  by (simp add: pixels_onload overlay_rows_copy_same_shape comp_def)

lemma shape_onload: "map length (pixels (onload img c)) = map length (pixels c)"
  by (simp add: pixels_onload map_length_overlay_rows comp_def)

lemma globalAlpha_onload:
  "globalAlpha (onload img c) = (if 0 \<le> globalAlpha c \<and> globalAlpha c \<le> 1 then globalAlpha c else 1)"
  by (simp add: onload_def clearRect_def set_globalAlpha_def drawImage_def Let_def)

lemma onload_unfold:
  "onload img c = set_globalAlpha (globalAlpha c) (drawImage img ((clearRect c)\<lparr>globalAlpha := 1\<rparr>))"
  by (simp add: onload_def clearRect_def set_globalAlpha_def Let_def)

lemma onload_other_fields:
  "lineCap (onload img c) = lineCap c" "lineJoin (onload img c) = lineJoin c"
  "strokeStyle (onload img c) = strokeStyle c" "ctxLineWidth (onload img c) = ctxLineWidth c"
  "path (onload img c) = path c"
  by (simp_all add: onload_def clearRect_def set_globalAlpha_def drawImage_def Let_def)

lemma cleared_by_shape:
  "map length a = map length b \<Longrightarrow> map (map (\<lambda>p. t)) a = map (map (\<lambda>p. t)) b"
proof (induction a arbitrary: b)
  case Nil
  then show ?case by simp
next
  case (Cons r a)
  then obtain r' b' where b: "b = r' # b'" by (cases b) auto
  with Cons.prems have len: "length r = length r'" and rest: "map length a = map length b'"
    by auto
  have "map (\<lambda>p. t) r = map (\<lambda>p. t) r'"
    using len by (simp add: map_replicate_const)
  with Cons.IH [OF rest] b show ?case by simp
qed

lemma onload_idem: "onload img (onload img c) = onload img c"
proof (rule canvas2d.equality)
  have "map (map (\<lambda>p. transparent)) (pixels (onload img c)) = map (map (\<lambda>p. transparent)) (pixels c)"
    by (rule cleared_by_shape) (rule shape_onload)
  then show "pixels (onload img (onload img c)) = pixels (onload img c)"
    by (simp add: pixels_onload)
qed (simp_all add: globalAlpha_onload onload_other_fields)

section \<open>Handlers and sessions\<close>

lemma restoreState_fields:
  "canvas (restoreState u s) = canvas s" "undoStack (restoreState u s) = undoStack s"
  "redoStack (restoreState u s) = redoStack s" "loading (restoreState u s) = loading s @ [u]"
  "isDrawing (restoreState u s) = isDrawing s"
  by (simp_all add: restoreState_def)

lemma imageSettled_newest:
  "imageSettled P (length (loading s)) (restoreState u s) =
     (case decodeImage P u of None \<Rightarrow> s | Some img \<Rightarrow> s\<lparr>canvas := onload img (canvas s)\<rparr>)"
  by (simp add: imageSettled_def restoreState_def Let_def split: option.splits)


lemma handleRedo_Cons:
  "redoStack s = n # r \<Longrightarrow>
   handleRedo s = restoreState n (s\<lparr>redoStack := r, undoStack := undoStack s @ [n]\<rparr>)"
  by (simp add: handleRedo_def Let_def)

lemma handleUndo_pop:
  "1 < length (undoStack s) \<Longrightarrow>
   handleUndo s =
     restoreState (last (butlast (undoStack s)))
       (s\<lparr>redoStack := last (undoStack s) # redoStack s, undoStack := butlast (undoStack s)\<rparr>)"
  by (simp add: handleUndo_def Let_def)

lemma draw_fields:
  "isDrawing (draw P x y s) = isDrawing s" "undoStack (draw P x y s) = undoStack s"
  "redoStack (draw P x y s) = redoStack s" "loading (draw P x y s) = loading s"
  by (simp_all add: draw_def Let_def)

lemma run_Nil: "run P s [] = s"
  by (simp add: run_def)

lemma run_Cons: "run P s (e # es) = run P (step P s e) es"
  by (simp add: run_def)

lemma run_append: "run P s (es @ fs) = run P (run P s es) fs"
  by (simp add: run_def)

lemma run_moves:
  "isDrawing (run P s (map (\<lambda>(mx, my). MouseMove mx my) ms)) = isDrawing s \<and>
   undoStack (run P s (map (\<lambda>(mx, my). MouseMove mx my) ms)) = undoStack s \<and>
   redoStack (run P s (map (\<lambda>(mx, my). MouseMove mx my) ms)) = redoStack s"
proof (induction ms arbitrary: s)
  case Nil
  then show ?case by (simp add: run_Nil)
next
  case (Cons m ms)
  obtain mx my where m: "m = (mx, my)" by (cases m)
  show ?case
    using Cons.IH [of "draw P mx my s"] by (simp add: m run_Cons draw_fields)
qed

lemma endDrawing_commit:
  "isDrawing s \<Longrightarrow>
   redoStack (endDrawing P s) = [] \<and>
   undoStack (endDrawing P s) = undoStack s @ [toDataURL P (pixels (canvas s))] \<and>
   \<not> isDrawing (endDrawing P s)"
  by (simp add: endDrawing_def saveState_def Let_def)

lemma run_stroke:
  "redoStack (run P s (strokeEvents st)) = [] \<and>
   length (undoStack (run P s (strokeEvents st))) = Suc (length (undoStack s))"
proof -
  obtain x y ms where st: "st = ((x, y), ms)" by (metis surj_pair)
  let ?s1 = "run P (startDrawing x y s) (map (\<lambda>(mx, my). MouseMove mx my) ms)"
  have "isDrawing ?s1" and "undoStack ?s1 = undoStack s"
    by (simp_all add: run_moves startDrawing_def)
  moreover have "run P s (strokeEvents st) = endDrawing P ?s1"
    by (simp add: st run_Cons run_append run_Nil)
  ultimately show ?thesis
    by (simp add: endDrawing_commit)
qed

lemma run_strokes:
  "length (undoStack (run P s (concat (map strokeEvents strokes)))) =
     length (undoStack s) + length strokes \<and>
   (strokes \<noteq> [] \<longrightarrow> redoStack (run P s (concat (map strokeEvents strokes))) = [])"
proof (induction strokes rule: rev_induct)
  case Nil
  then show ?case by (simp add: run_Nil)
next
  case (snoc st strokes)
  then show ?case by (simp add: run_append run_stroke)
qed

lemma mounted_stacks:
  "undoStack (mounted P w h) = [toDataURL P (replicate h (replicate w transparent))]"
  "redoStack (mounted P w h) = []"
  by (simp_all add: mounted_def useEffect_def saveState_def initial_def newCanvas_def
        set_globalAlpha_def Let_def)

lemma useEffect_stacks:
  "undoStack (useEffect P s) = undoStack s @ [toDataURL P (pixels (canvas s))]"
  "redoStack (useEffect P s) = redoStack s"
  by (simp_all add: useEffect_def saveState_def set_globalAlpha_def Let_def)




lemma restore_settled:
  "imageSettled P (length (loading s)) (restoreState dataUrl s) =
     (case decodeImage P dataUrl of
        None \<Rightarrow> s
      | Some img \<Rightarrow> s\<lparr>canvas := onload img (canvas s)\<rparr>)"
  by (rule imageSettled_newest)

lemma overlay_Nil: "overlay f [] ds = ds"
  by (cases ds) simp_all

lemma onload_empty: "pixels (onload [] c) = map (map (\<lambda>p. transparent)) (pixels c)"
  by (simp add: pixels_onload overlay_Nil)

lemma pixels_onload_any_alpha:
  "pixels (onload img (c\<lparr>globalAlpha := a\<rparr>)) = pixels (onload img c)"
  by (simp add: pixels_onload)

subsection \<open>Evaluating the concrete sessions\<close>

lemma demo_simps:
  "toDataURL demo = Encoded" "decodeImage demo (Encoded b) = Some b" "decodeImage demo Corrupt = None"
  "decodeImage demo Undrawable = Some []" "strokePath demo = dotStroke"
  by (simp_all add: demo_def)

lemmas eval_defs =
  saveState_def useEffect_def restoreState_def onload_def imageSettled_def startDrawing_def
  endDrawing_def draw_def handleUndo_def handleRedo_def setLineColor_def setLineWidth_def
  setLineOpacity_def run_Nil run_Cons mounted_def initial_def newCanvas_def clearRect_def
  drawImage_def set_globalAlpha_def transparent_def dotStroke_def demo_simps Let_def
  eval_nat_numeral strokeA_def strokeB_def afterStrokeA_def unfinishedStroke_def afterUndo_def
  restoresPending_def

lemma afterStrokeA_eval:
  "afterStrokeA =
    \<lparr>canvas = \<lparr>pixels = [[RGBA 0 0 0 0, RGBA 0 0 0 (1 / 10)], [RGBA 0 0 0 0, RGBA 0 0 0 0]],
        lineCap = ''round'', lineJoin = ''round'', globalAlpha = 1 / 10, strokeStyle = ''black'',
        ctxLineWidth = 5, path = [MoveTo 0 0, LineTo 1 0, ClosePath]\<rparr>,
     isDrawing = False, lineWidth = 5, lineColor = ''black'', lineOpacity = 1 / 10,
     undoStack = [Encoded [[RGBA 0 0 0 0, RGBA 0 0 0 0], [RGBA 0 0 0 0, RGBA 0 0 0 0]],
                  Encoded [[RGBA 0 0 0 0, RGBA 0 0 0 (1 / 10)], [RGBA 0 0 0 0, RGBA 0 0 0 0]]],
     redoStack = [], loading = []\<rparr>"
  by (simp add: eval_defs)

text \<open>
  The scenario of two strokes, two undos and one redo: after the undos one snapshot is left
  on the undo stack and two wait for redo, and the canvas is blank; after the redo the
  canvas shows the first stroke only.
\<close>

lemma scenario_two_undos_one_redo:
  "length (undoStack (run demo (mounted demo 2 2)
     (strokeA @ strokeB @ [ClickUndo, ImageSettled 0, ClickUndo, ImageSettled 0]))) = 1 \<and>
   length (redoStack (run demo (mounted demo 2 2)
     (strokeA @ strokeB @ [ClickUndo, ImageSettled 0, ClickUndo, ImageSettled 0]))) = 2 \<and>
   pixels (canvas (run demo (mounted demo 2 2)
     (strokeA @ strokeB @ [ClickUndo, ImageSettled 0, ClickUndo, ImageSettled 0]))) =
     [[RGBA 0 0 0 0, RGBA 0 0 0 0], [RGBA 0 0 0 0, RGBA 0 0 0 0]] \<and>
   length (undoStack (run demo (mounted demo 2 2)
     (strokeA @ strokeB @ [ClickUndo, ImageSettled 0, ClickUndo, ImageSettled 0,
                           ClickRedo, ImageSettled 0]))) = 2 \<and>
   length (redoStack (run demo (mounted demo 2 2)
     (strokeA @ strokeB @ [ClickUndo, ImageSettled 0, ClickUndo, ImageSettled 0,
                           ClickRedo, ImageSettled 0]))) = 1 \<and>
   pixels (canvas (run demo (mounted demo 2 2)
     (strokeA @ strokeB @ [ClickUndo, ImageSettled 0, ClickUndo, ImageSettled 0,
                           ClickRedo, ImageSettled 0]))) = pixels (canvas afterStrokeA)"
  by (simp add: eval_defs)

section \<open>The history claims\<close>

subsection \<open>Undo followed by redo\<close>


text \<open>
  The two restores are separate image loads. Were the one started by redo to finish before
  the one started by undo, the canvas would end on the older snapshot.
\<close>

lemma restores_out_of_order:
  "pixels (canvas (run demo afterStrokeA [ClickUndo, ClickRedo, ImageSettled 1, ImageSettled 0]))
     \<noteq> pixels (canvas afterStrokeA)"
  by (simp add: eval_defs)



subsection \<open>Completed strokes\<close>

text \<open>
  C2. After mounting and any number \<open>N\<close> of completed strokes, each of them a press, any
  drags and a release on the canvas, with nothing else in between, the undo stack holds
  \<open>N + 1\<close> snapshots and the redo stack is empty.
\<close>

theorem strokes_history:
  "length (undoStack (run P (mounted P w h) (concat (map strokeEvents strokes)))) = length strokes + 1 \<and>
   length (redoStack (run P (mounted P w h) (concat (map strokeEvents strokes)))) = 0"
proof (cases "strokes = []")
  case True
  then show ?thesis by (simp add: run_Nil mounted_stacks)
next
  case False
  then show ?thesis
    using run_strokes [of P "mounted P w h" strokes] by (simp add: mounted_stacks)
qed

theorem strokes_history_witness:
  "length (undoStack (run demo (mounted demo 2 2) (strokeA @ strokeB))) = 3 \<and>
   length (redoStack (run demo (mounted demo 2 2) (strokeA @ strokeB))) = 0"
  using strokes_history [of demo 2 2 "[((0, 0), [(1, 0)]), ((0, 1), [(1, 1)])]"]
  by (simp add: strokeA_def strokeB_def)

text \<open>
  C4. A commit empties the redo stack whatever it held: when a stroke is in progress,
  \<^verbatim>\<open>endDrawing\<close> leaves the redo stack empty, and the undo stack is the old one with the
  snapshot of the canvas appended, so nothing that was waiting for redo is put back; and a
  whole stroke, from any state, ends with an empty redo stack.
\<close>

theorem commit_clears_redo:
  "(isDrawing s \<longrightarrow>
      length (redoStack (endDrawing P s)) = 0 \<and>
      undoStack (endDrawing P s) = undoStack s @ [toDataURL P (pixels (canvas s))]) \<and>
   length (redoStack (run P s (strokeEvents st))) = 0"
  by (simp add: endDrawing_commit run_stroke)

theorem commit_clears_redo_witness:
  "isDrawing (startDrawing 0 1 afterUndo) \<and> redoStack (startDrawing 0 1 afterUndo) \<noteq> [] \<and>
   length (redoStack (endDrawing demo (startDrawing 0 1 afterUndo))) = 0 \<and>
   length (undoStack (endDrawing demo (startDrawing 0 1 afterUndo))) = 2 \<and>
   length (redoStack (run demo (startDrawing 0 1 afterUndo) strokeB)) = 0"
  using commit_clears_redo [of "startDrawing 0 1 afterUndo" demo "((0, 1), [(1, 1)])"]
  by (simp add: eval_defs)

subsection \<open>The effect on mount and on a change of brush settings\<close>

text \<open>
  C3, as stated, has every change of brush settings leave exactly one snapshot on the undo
  stack and none on the redo stack. In \<open>afterUndo\<close> one snapshot is on each stack; changing
  the colour then leaves two on the undo stack and one on the redo stack.
\<close>

theorem config_change_counterexample:
  "length (undoStack (run demo afterUndo [ChangeColor ''red''])) \<noteq> 1 \<and>
   length (redoStack (run demo afterUndo [ChangeColor ''red''])) \<noteq> 0"
  by (simp add: eval_defs)

text \<open>
  C3, amended. On mount and on every change of a brush setting the effect captures the
  canvas and appends the snapshot to the undo stack; the snapshots already there stay, and
  the redo stack is left as it is. On mount both stacks are empty beforehand, so the
  snapshot of the blank canvas is then the only entry of the undo stack and the redo stack
  is empty.
\<close>

theorem config_change_appends:
  "undoStack (mounted P w h) = [toDataURL P (replicate h (replicate w transparent))] \<and>
   redoStack (mounted P w h) = [] \<and>
   (color \<noteq> lineColor s \<longrightarrow>
      undoStack (setLineColor P color s) = undoStack s @ [toDataURL P (pixels (canvas s))] \<and>
      redoStack (setLineColor P color s) = redoStack s) \<and>
   (width \<noteq> lineWidth s \<longrightarrow>
      undoStack (setLineWidth P width s) = undoStack s @ [toDataURL P (pixels (canvas s))] \<and>
      redoStack (setLineWidth P width s) = redoStack s) \<and>
   (opacity \<noteq> lineOpacity s \<longrightarrow>
      undoStack (setLineOpacity P opacity s) = undoStack s @ [toDataURL P (pixels (canvas s))] \<and>
      redoStack (setLineOpacity P opacity s) = redoStack s)"
  by (simp add: mounted_stacks setLineColor_def setLineWidth_def setLineOpacity_def useEffect_stacks)

theorem config_change_appends_witness:
  "''red'' \<noteq> lineColor afterUndo \<and> 7 \<noteq> lineWidth afterUndo \<and> 1 / 2 \<noteq> lineOpacity afterUndo \<and>
   length (undoStack (setLineColor demo ''red'' afterUndo)) = 2 \<and>
   length (redoStack (setLineColor demo ''red'' afterUndo)) = 1 \<and>
   length (undoStack (setLineWidth demo 7 afterUndo)) = 2 \<and>
   length (undoStack (setLineOpacity demo (1 / 2) afterUndo)) = 2 \<and>
   length (undoStack (mounted demo 2 2 :: demoUrl app)) = 1"
  using config_change_appends [of demo 2 2 "''red''" afterUndo 7 "1 / 2"]
  by (simp add: eval_defs)

subsection \<open>Undo and redo\<close>

text \<open>
  C5. With more than one snapshot on the undo stack, \<^verbatim>\<open>handleUndo\<close> removes the last one,
  puts it at the front of the redo stack, and starts a restore from the snapshot that is
  now last: the canvas is untouched until that image has loaded, and is then the result of
  the \<^verbatim>\<open>onload\<close> callback on the decoded image, whose pixels are the image's own when it has
  the size of the canvas. Otherwise \<^verbatim>\<open>handleUndo\<close> changes nothing.
\<close>

theorem undo_behaviour:
  "(1 < length (undoStack s) \<longrightarrow>
      undoStack (handleUndo s) = butlast (undoStack s) \<and>
      redoStack (handleUndo s) = last (undoStack s) # redoStack s \<and>
      canvas (handleUndo s) = canvas s \<and>
      loading (handleUndo s) = loading s @ [last (butlast (undoStack s))] \<and>
      (decodeImage P (last (butlast (undoStack s))) = Some img \<longrightarrow>
         canvas (imageSettled P (length (loading s)) (handleUndo s)) = onload img (canvas s) \<and>
         (map length img = map length (pixels (canvas s)) \<longrightarrow>
            pixels (canvas (imageSettled P (length (loading s)) (handleUndo s))) = img))) \<and>
   (\<not> 1 < length (undoStack s) \<longrightarrow> handleUndo s = s)"
proof (cases "1 < length (undoStack s)")
  case False
  then show ?thesis by (simp add: handleUndo_def)
next
  case True
  let ?u = "last (butlast (undoStack s))"
  let ?s' = "s\<lparr>redoStack := last (undoStack s) # redoStack s, undoStack := butlast (undoStack s)\<rparr>"
  have undo: "handleUndo s = restoreState ?u ?s'"
    using True by (rule handleUndo_pop)
  have settled: "imageSettled P (length (loading s)) (restoreState ?u ?s') =
      (case decodeImage P ?u of None \<Rightarrow> ?s' | Some img \<Rightarrow> ?s'\<lparr>canvas := onload img (canvas s)\<rparr>)"
    using imageSettled_newest [of P ?s' ?u] by (simp split: option.splits)
  show ?thesis
    using True by (simp add: undo settled restoreState_fields pixels_onload_same_shape)
qed

theorem undo_behaviour_witness:
  "1 < length (undoStack afterStrokeA) \<and>
   decodeImage demo (last (butlast (undoStack afterStrokeA)))
     = Some [[RGBA 0 0 0 0, RGBA 0 0 0 0], [RGBA 0 0 0 0, RGBA 0 0 0 0]] \<and>
   map length [[RGBA 0 0 0 0, RGBA 0 0 0 0], [RGBA 0 0 0 0, RGBA 0 0 0 0]]
     = map length (pixels (canvas afterStrokeA)) \<and>
   undoStack (handleUndo afterStrokeA) = butlast (undoStack afterStrokeA) \<and>
   redoStack (handleUndo afterStrokeA) = [last (undoStack afterStrokeA)] \<and>
   pixels (canvas (imageSettled demo (length (loading afterStrokeA)) (handleUndo afterStrokeA)))
     = [[RGBA 0 0 0 0, RGBA 0 0 0 0], [RGBA 0 0 0 0, RGBA 0 0 0 0]] \<and>
   \<not> 1 < length (undoStack afterUndo) \<and> handleUndo afterUndo = afterUndo"
  using undo_behaviour [of afterStrokeA demo "[[RGBA 0 0 0 0, RGBA 0 0 0 0], [RGBA 0 0 0 0, RGBA 0 0 0 0]]"]
        undo_behaviour [of afterUndo demo "[]"]
  by (simp add: eval_defs)

text \<open>
  C6. With exactly one snapshot on the undo stack, \<^verbatim>\<open>handleUndo\<close> changes nothing: the stacks,
  the canvas and every other part of the state stay as they are.
\<close>

theorem undo_single: "length (undoStack s) = 1 \<Longrightarrow> handleUndo s = s"
  by (simp add: handleUndo_def)

theorem undo_single_witness:
  "length (undoStack (mounted demo 2 1)) = 1 \<and> handleUndo (mounted demo 2 1) = mounted demo 2 1"
  using undo_single [of "mounted demo 2 1"] by (simp add: mounted_stacks)

text \<open>
  C7. With an empty redo stack \<^verbatim>\<open>handleRedo\<close> changes nothing. With a non-empty one it removes
  the first entry, appends it to the undo stack, and starts a restore from that entry: the
  canvas is untouched until the image has loaded, and is then the result of the \<^verbatim>\<open>onload\<close>
  callback on the decoded image, whose pixels are the image's own when it has the size of
  the canvas.
\<close>

theorem redo_behaviour:
  "(length (redoStack s) = 0 \<longrightarrow> handleRedo s = s) \<and>
   (redoStack s \<noteq> [] \<longrightarrow>
      redoStack (handleRedo s) = tl (redoStack s) \<and>
      undoStack (handleRedo s) = undoStack s @ [hd (redoStack s)] \<and>
      canvas (handleRedo s) = canvas s \<and>
      loading (handleRedo s) = loading s @ [hd (redoStack s)] \<and>
      (decodeImage P (hd (redoStack s)) = Some img \<longrightarrow>
         canvas (imageSettled P (length (loading s)) (handleRedo s)) = onload img (canvas s) \<and>
         (map length img = map length (pixels (canvas s)) \<longrightarrow>
            pixels (canvas (imageSettled P (length (loading s)) (handleRedo s))) = img)))"
proof (cases "redoStack s")
  case Nil
  then show ?thesis by (simp add: handleRedo_def)
next
  case (Cons n r)
  let ?s' = "s\<lparr>redoStack := r, undoStack := undoStack s @ [n]\<rparr>"
  have redo: "handleRedo s = restoreState n ?s'"
    using Cons by (rule handleRedo_Cons)
  have settled: "imageSettled P (length (loading s)) (restoreState n ?s') =
      (case decodeImage P n of None \<Rightarrow> ?s' | Some img \<Rightarrow> ?s'\<lparr>canvas := onload img (canvas s)\<rparr>)"
    using imageSettled_newest [of P ?s' n] by (simp split: option.splits)
  show ?thesis
    using Cons by (simp add: redo settled restoreState_fields pixels_onload_same_shape)
qed

theorem redo_behaviour_witness:
  "length (redoStack afterStrokeA) = 0 \<and> handleRedo afterStrokeA = afterStrokeA \<and>
   redoStack afterUndo \<noteq> [] \<and>
   decodeImage demo (hd (redoStack afterUndo))
     = Some [[RGBA 0 0 0 0, RGBA 0 0 0 (1 / 10)], [RGBA 0 0 0 0, RGBA 0 0 0 0]] \<and>
   map length [[RGBA 0 0 0 0, RGBA 0 0 0 (1 / 10)], [RGBA 0 0 0 0, RGBA 0 0 0 0]]
     = map length (pixels (canvas afterUndo)) \<and>
   redoStack (handleRedo afterUndo) = [] \<and>
   undoStack (handleRedo afterUndo) = undoStack afterStrokeA \<and>
   pixels (canvas (imageSettled demo (length (loading afterUndo)) (handleRedo afterUndo)))
     = [[RGBA 0 0 0 0, RGBA 0 0 0 (1 / 10)], [RGBA 0 0 0 0, RGBA 0 0 0 0]]"
  using redo_behaviour [of afterStrokeA demo "[]"]
        redo_behaviour [of afterUndo demo "[[RGBA 0 0 0 0, RGBA 0 0 0 (1 / 10)], [RGBA 0 0 0 0, RGBA 0 0 0 0]]"]
  by (simp add: eval_defs)

text \<open>
  C10. \<^verbatim>\<open>handleUndo\<close> and \<^verbatim>\<open>handleRedo\<close> keep the total number of stored snapshots: the
  lengths of the two stacks add up to the same number before and after, in every state.
\<close>

theorem count_preserved:
  "length (undoStack (handleUndo s)) + length (redoStack (handleUndo s)) =
     length (undoStack s) + length (redoStack s) \<and>
   length (undoStack (handleRedo s)) + length (redoStack (handleRedo s)) =
     length (undoStack s) + length (redoStack s)"
  by (auto simp: handleUndo_def handleRedo_def restoreState_def Let_def split: list.splits)

subsection \<open>Restoring a snapshot\<close>

text \<open>
  Had the image been drawn under the brush opacity, a stroke of alpha one tenth would come
  back at one hundredth.
\<close>

lemma ambient_alpha_would_attenuate:
  "pixels (drawImage [[RGBA 0 0 0 (1 / 10)]] (clearRect ((newCanvas 1 1)\<lparr>globalAlpha := 1 / 10\<rparr>)))
     = [[RGBA 0 0 0 (1 / 100)]]"
  by (simp add: drawImage_def clearRect_def newCanvas_def transparent_def)

text \<open>
  C8. A restore whose image loads overwrites the canvas at full opacity. Once the image
  queued by \<^verbatim>\<open>restoreState\<close> has loaded, every pixel that the image covers is the image's
  pixel, unchanged, and the rest is transparent, so an image of the size of the canvas
  becomes the content of the canvas. The result is the same under every global alpha in
  force when the restore lands. A global alpha in the range 0 to 1, which every brush
  opacity is, is in force again afterwards. Restoring the same snapshot once more changes
  nothing, so repeated restores do not compound.
\<close>

theorem restore_full_opacity:
  assumes "decodeImage P dataUrl = Some img"
  shows
    "pixels (canvas (imageSettled P (length (loading s)) (restoreState dataUrl s))) =
       overlay (overlay (\<lambda>s d. s)) img (map (map (\<lambda>p. transparent)) (pixels (canvas s))) \<and>
     (map length img = map length (pixels (canvas s)) \<longrightarrow>
        pixels (canvas (imageSettled P (length (loading s)) (restoreState dataUrl s))) = img) \<and>
     pixels (canvas (imageSettled P (length (loading s))
        (restoreState dataUrl (s\<lparr>canvas := (canvas s)\<lparr>globalAlpha := a\<rparr>\<rparr>)))) =
       pixels (canvas (imageSettled P (length (loading s)) (restoreState dataUrl s))) \<and>
     (0 \<le> globalAlpha (canvas s) \<and> globalAlpha (canvas s) \<le> 1 \<longrightarrow>
        globalAlpha (canvas (imageSettled P (length (loading s)) (restoreState dataUrl s))) =
          globalAlpha (canvas s)) \<and>
     imageSettled P (length (loading s))
        (restoreState dataUrl (imageSettled P (length (loading s)) (restoreState dataUrl s))) =
       imageSettled P (length (loading s)) (restoreState dataUrl s)"
proof -
  let ?s' = "s\<lparr>canvas := onload img (canvas s)\<rparr>"
  have once: "imageSettled P (length (loading s)) (restoreState dataUrl s) = ?s'"
    using assms by (simp add: restore_settled)
  have other_alpha: "imageSettled P (length (loading s))
      (restoreState dataUrl (s\<lparr>canvas := (canvas s)\<lparr>globalAlpha := a\<rparr>\<rparr>)) =
      s\<lparr>canvas := onload img ((canvas s)\<lparr>globalAlpha := a\<rparr>)\<rparr>"
    using assms restore_settled [of P "s\<lparr>canvas := (canvas s)\<lparr>globalAlpha := a\<rparr>\<rparr>" dataUrl]
    by simp
  have again: "imageSettled P (length (loading s)) (restoreState dataUrl ?s') = ?s'"
    using assms restore_settled [of P ?s' dataUrl] by (simp add: onload_idem)
  show ?thesis
    by (simp add: once other_alpha again pixels_onload_any_alpha pixels_onload [symmetric]
          pixels_onload_same_shape globalAlpha_onload)
qed

theorem restore_full_opacity_witness:
  "decodeImage demo (Encoded [[RGBA 0 0 0 0, RGBA 0 0 0 (1 / 10)], [RGBA 0 0 0 0, RGBA 0 0 0 0]])
     = Some [[RGBA 0 0 0 0, RGBA 0 0 0 (1 / 10)], [RGBA 0 0 0 0, RGBA 0 0 0 0]] \<and>
   map length [[RGBA 0 0 0 0, RGBA 0 0 0 (1 / 10)], [RGBA 0 0 0 0, RGBA 0 0 0 0]]
     = map length (pixels (canvas afterUndo)) \<and>
   globalAlpha (canvas afterUndo) = 1 / 10 \<and>
   pixels (canvas (imageSettled demo (length (loading afterUndo))
      (restoreState (Encoded [[RGBA 0 0 0 0, RGBA 0 0 0 (1 / 10)], [RGBA 0 0 0 0, RGBA 0 0 0 0]])
         afterUndo)))
     = [[RGBA 0 0 0 0, RGBA 0 0 0 (1 / 10)], [RGBA 0 0 0 0, RGBA 0 0 0 0]] \<and>
   globalAlpha (canvas (imageSettled demo (length (loading afterUndo))
      (restoreState (Encoded [[RGBA 0 0 0 0, RGBA 0 0 0 (1 / 10)], [RGBA 0 0 0 0, RGBA 0 0 0 0]])
         afterUndo)))
     = 1 / 10"
  using restore_full_opacity
          [of demo "Encoded [[RGBA 0 0 0 0, RGBA 0 0 0 (1 / 10)], [RGBA 0 0 0 0, RGBA 0 0 0 0]]"
              "[[RGBA 0 0 0 0, RGBA 0 0 0 (1 / 10)], [RGBA 0 0 0 0, RGBA 0 0 0 0]]" afterUndo "1 / 10"]
  by (simp add: eval_defs)

text \<open>
  A stroke painted at one tenth opacity, then undone and redone twice over: the canvas
  holds the stroke at one tenth, as painted.
\<close>

lemma repeated_undo_redo_same_alpha:
  "pixels (canvas afterStrokeA) = [[RGBA 0 0 0 0, RGBA 0 0 0 (1 / 10)], [RGBA 0 0 0 0, RGBA 0 0 0 0]] \<and>
   pixels (canvas (run demo afterStrokeA
      [ClickUndo, ImageSettled 0, ClickRedo, ImageSettled 0,
       ClickUndo, ImageSettled 0, ClickRedo, ImageSettled 0]))
     = [[RGBA 0 0 0 0, RGBA 0 0 0 (1 / 10)], [RGBA 0 0 0 0, RGBA 0 0 0 0]]"
  by (simp add: eval_defs)

text \<open>
  C9, as stated, leaves the canvas unchanged for every snapshot that cannot be decoded. The
  callback clears the canvas before it draws and has no path for an image of which nothing
  can be drawn: when such an image fires \<^verbatim>\<open>load\<close>, the stroke on the canvas is wiped.
\<close>

theorem undrawable_restore_counterexample:
  "decodeImage demo Undrawable = Some [] \<and>
   pixels (canvas (imageSettled demo (length (loading afterStrokeA)) (restoreState Undrawable afterStrokeA)))
     \<noteq> pixels (canvas afterStrokeA)"
  by (simp add: eval_defs)

text \<open>
  C9, amended. Starting a restore never touches the canvas. When the load of the image
  fails, so that \<^verbatim>\<open>onload\<close> never runs, the restore is abandoned and the whole state is what
  it was before the restore was started. When the image fires \<^verbatim>\<open>load\<close> the canvas is
  cleared before the draw: what the image does not cover is transparent afterwards, and
  if nothing of it can be drawn the whole canvas is.
\<close>

theorem undecodable_restore:
  "canvas (restoreState dataUrl s) = canvas s \<and>
   (decodeImage P dataUrl = None \<longrightarrow>
      imageSettled P (length (loading s)) (restoreState dataUrl s) = s) \<and>
   (decodeImage P dataUrl = Some img \<longrightarrow>
      pixels (canvas (imageSettled P (length (loading s)) (restoreState dataUrl s))) =
        overlay (overlay (\<lambda>s d. s)) img (map (map (\<lambda>p. transparent)) (pixels (canvas s)))) \<and>
   (decodeImage P dataUrl = Some [] \<longrightarrow>
      pixels (canvas (imageSettled P (length (loading s)) (restoreState dataUrl s))) =
        map (map (\<lambda>p. transparent)) (pixels (canvas s)))"
  by (simp add: restore_settled restoreState_fields pixels_onload overlay_Nil)

theorem undecodable_restore_witness:
  "decodeImage demo Corrupt = None \<and>
   canvas (restoreState Corrupt afterStrokeA) = canvas afterStrokeA \<and>
   imageSettled demo (length (loading afterStrokeA)) (restoreState Corrupt afterStrokeA) = afterStrokeA \<and>
   decodeImage demo Undrawable = Some [] \<and>
   pixels (canvas (imageSettled demo (length (loading afterStrokeA)) (restoreState Undrawable afterStrokeA)))
     = [[RGBA 0 0 0 0, RGBA 0 0 0 0], [RGBA 0 0 0 0, RGBA 0 0 0 0]]"
proof -
  have blank: "map (map (\<lambda>p. transparent)) (pixels (canvas afterStrokeA)) =
      [[RGBA 0 0 0 0, RGBA 0 0 0 0], [RGBA 0 0 0 0, RGBA 0 0 0 0]]"
    by (simp add: afterStrokeA_eval transparent_def)
  show ?thesis
    using undecodable_restore [of Corrupt afterStrokeA demo "[]"]
          undecodable_restore [of Undrawable afterStrokeA demo "[]"]
    by (simp add: demo_simps blank)
qed

end
